theory Spec2Isabelle
  imports Main
begin

section \<open>The dependency retriever: data model\<close>

text \<open>
  The program is \<^verbatim>\<open>dependency-retriever/main.py\<close>: a crawler that fetches a paginated
  listing, turns every listing row into a \<^verbatim>\<open>Repository\<close> and inserts it into an SQLite
  table, following the "Next" link until there is none.

  Python exceptions are values. The source defines no exception class of its own; the
  ones below are those its statements raise: \<open>RequestException\<close> by \<^verbatim>\<open>requests.get\<close>,
  \<open>AttributeError\<close> by a method call on \<^verbatim>\<open>None\<close>, \<open>AssertionError\<close> by
  \<^verbatim>\<open>assert False\<close>, \<open>ValueError\<close> by a failed tuple unpacking and by \<^verbatim>\<open>int\<close>,
  \<open>OperationalError\<close>, \<open>ProgrammingError\<close> and \<open>DatabaseError\<close> by \<^verbatim>\<open>sqlite3\<close>,
  \<open>OverflowError\<close> by \<^verbatim>\<open>sqlite3\<close> for an integer beyond 64 bits; \<^verbatim>\<open>time.sleep\<close> raises
  \<open>ValueError\<close> and \<open>OverflowError\<close> as well.

  Strings are lists of characters with the code points 0 to 255; a page with
  other characters in a badge is outside this model.
\<close>

datatype py_exception =
    RequestException
  | AttributeError
  | AssertionError
  | ValueError
  | OperationalError
  | ProgrammingError
  | DatabaseError
  | OverflowError

text \<open>
  The three fault classes of the design, and the class of an exception raised
  while a page is fetched, its rows are extracted or a record is stored. The
  design has no class for what \<^verbatim>\<open>_wait\<close> raises.
\<close>

datatype fault = NetworkError | ExtractionError | PersistenceError

fun fault_class :: "py_exception \<Rightarrow> fault" where
  "fault_class RequestException = NetworkError"
| "fault_class AttributeError = ExtractionError"
| "fault_class AssertionError = ExtractionError"
| "fault_class ValueError = ExtractionError"
| "fault_class OperationalError = PersistenceError"
| "fault_class ProgrammingError = PersistenceError"
| "fault_class DatabaseError = PersistenceError"
| "fault_class OverflowError = PersistenceError"

text \<open>The dataclass \<^verbatim>\<open>Repository\<close> and its \<^verbatim>\<open>to_tuple\<close>.\<close>

record repository =
  authority :: string
  name :: string
  num_stars :: int
  num_forks :: int

type_synonym row = "string \<times> string \<times> int \<times> int"

definition to_tuple :: "repository \<Rightarrow> row" where
  "to_tuple repo = (authority repo, name repo, num_stars repo, num_forks repo)"

section \<open>The parsed page\<close>

text \<open>
  A page is the tree \<^verbatim>\<open>bs4.BeautifulSoup(response.text, "html.parser")\<close> builds: a node
  is a string or a tag with its name, its \<^verbatim>\<open>class\<close> attribute as the list of tokens
  bs4 keeps for it, its other attributes as a dictionary, and its children. The
  soup itself is a tag (named \<^verbatim>\<open>[document]\<close>) whose children are the top-level nodes.
\<close>

datatype element =
    NavigableString string
  | Tag string "string list" "(string \<times> string) list" "element list"

text \<open>\<^verbatim>\<open>tag.descendants\<close>: every node below the tag, in document order.\<close>

fun descendants :: "element \<Rightarrow> element list" where
  "descendants (NavigableString s) = []"
| "descendants (Tag n cl at cs) = concat (map (\<lambda>c. c # descendants c) cs)"

text \<open>\<^verbatim>\<open>tag.text\<close>: all strings below the tag, concatenated.\<close>

fun get_text :: "element \<Rightarrow> string" where
  "get_text (NavigableString s) = s"
| "get_text (Tag n cl at cs) = concat (map get_text cs)"

text \<open>\<^verbatim>\<open>tag.string\<close>: the string of a tag with a single child, searched recursively.\<close>

fun get_string :: "element \<Rightarrow> string option" where
  "get_string (NavigableString s) = Some s"
| "get_string (Tag n cl at cs) = (case cs of [c] \<Rightarrow> get_string c | _ \<Rightarrow> None)"

text \<open>\<^verbatim>\<open>tag.has_attr(key)\<close> and \<^verbatim>\<open>tag.get(key)\<close>; \<^verbatim>\<open>tag[key]\<close> is the latter's value
  where the key is present.\<close>

fun get_attr :: "element \<Rightarrow> string \<Rightarrow> string option" where
  "get_attr (NavigableString s) k = None"
| "get_attr (Tag n cl at cs) k = map_of at k"

definition has_attr :: "element \<Rightarrow> string \<Rightarrow> bool" where
  "has_attr t k = (get_attr t k \<noteq> None)"

fun join_space :: "string list \<Rightarrow> string" where
  "join_space [] = []"
| "join_space [x] = x"
| "join_space (x # y # r) = x @ '' '' @ join_space (y # r)"

text \<open>
  The keyword \<^verbatim>\<open>class_=c\<close> matches a tag when one of its class tokens is \<open>c\<close>, or
  when the tokens joined by single spaces are \<open>c\<close>.
\<close>

fun has_class :: "string \<Rightarrow> element \<Rightarrow> bool" where
  "has_class c (NavigableString s) = False"
| "has_class c (Tag n cl at cs) = (c \<in> set cl \<or> join_space cl = c)"

text \<open>\<^verbatim>\<open>tag.find_all(class_=c)\<close> and \<^verbatim>\<open>tag.find(class_=c)\<close>.\<close>

definition find_all_class :: "string \<Rightarrow> element \<Rightarrow> element list" where
  "find_all_class c t = filter (has_class c) (descendants t)"

definition find_class :: "string \<Rightarrow> element \<Rightarrow> element option" where
  "find_class c t = List.find (has_class c) (descendants t)"

text \<open>\<^verbatim>\<open>tag.find("a", attrs={"data-hovercard-type": v})\<close>.\<close>

fun is_hovercard :: "string \<Rightarrow> element \<Rightarrow> bool" where
  "is_hovercard v (NavigableString s) = False"
| "is_hovercard v (Tag n cl at cs) = (n = ''a'' \<and> map_of at ''data-hovercard-type'' = Some v)"

definition find_hovercard :: "string \<Rightarrow> element \<Rightarrow> element option" where
  "find_hovercard v t = List.find (is_hovercard v) (descendants t)"

text \<open>\<^verbatim>\<open>soup.find("a", class_="btn btn-outline BtnGroup-item", string="Next")\<close>.\<close>

fun is_next :: "element \<Rightarrow> bool" where
  "is_next (NavigableString s) = False"
| "is_next (Tag n cl at cs) =
     (n = ''a'' \<and> has_class ''btn btn-outline BtnGroup-item'' (Tag n cl at cs)
      \<and> get_string (Tag n cl at cs) = Some ''Next'')"

definition find_next :: "element \<Rightarrow> element option" where
  "find_next soup = List.find is_next (descendants soup)"

section \<open>Number parsing\<close>

text \<open>
  \<^verbatim>\<open>str.strip()\<close> removes the white space at both ends: the characters for which
  \<^verbatim>\<open>str.isspace\<close> holds, which below 256 are 9 to 13, 28 to 32, 133 and 160.
\<close>

definition isspace :: "char \<Rightarrow> bool" where
  "isspace c = (of_char c \<in> set [9, 10, 11, 12, 13, 28, 29, 30, 31, 32, 133, 160 :: nat])"

definition strip :: "string \<Rightarrow> string" where
  "strip s = rev (dropWhile isspace (rev (dropWhile isspace s)))"

text \<open>
  The white space \<^verbatim>\<open>int\<close> skips at both ends of its argument is narrower: 28 to 31
  are not part of it.
\<close>

definition int_space :: "char \<Rightarrow> bool" where
  "int_space c = (of_char c \<in> set [9, 10, 11, 12, 13, 32, 133, 160 :: nat])"

definition int_strip :: "string \<Rightarrow> string" where
  "int_strip s = rev (dropWhile int_space (rev (dropWhile int_space s)))"

definition isdigit :: "char \<Rightarrow> bool" where
  "isdigit c = (48 \<le> (of_char c :: nat) \<and> (of_char c :: nat) \<le> 57)"

definition digit_value :: "char \<Rightarrow> int" where
  "digit_value c = int (of_char c) - 48"

text \<open>
  The digits of a decimal literal as \<^verbatim>\<open>int\<close> reads them: at least one digit, and
  single underscores between digits only. The flag says that the character before
  was a digit.
\<close>

fun parse_digits :: "bool \<Rightarrow> int \<Rightarrow> string \<Rightarrow> int option" where
  "parse_digits prev acc [] = (if prev then Some acc else None)"
| "parse_digits prev acc (c # cs) =
     (if isdigit c then parse_digits True (10 * acc + digit_value c) cs
      else if c = CHR ''_'' \<and> prev then parse_digits False acc cs
      else None)"

text \<open>
  A literal of more than 4300 digits is refused (the default of
  \<^verbatim>\<open>sys.set_int_max_str_digits\<close>); the sign and the underscores do not count.
\<close>

definition int_digits :: "string \<Rightarrow> int option" where
  "int_digits s =
     (if 4300 < length (filter isdigit s) then None else parse_digits False 0 s)"

text \<open>\<^verbatim>\<open>int(s)\<close>: white space skipped, an optional sign, then the digits.\<close>

definition py_int :: "string \<Rightarrow> py_exception + int" where
  "py_int s =
     (case int_strip s of
        [] \<Rightarrow> Inl ValueError
      | c # cs \<Rightarrow>
          if c = CHR ''-'' then
            (case int_digits cs of None \<Rightarrow> Inl ValueError | Some n \<Rightarrow> Inr (- n))
          else if c = CHR ''+'' then
            (case int_digits cs of None \<Rightarrow> Inl ValueError | Some n \<Rightarrow> Inr n)
          else
            (case int_digits (c # cs) of None \<Rightarrow> Inl ValueError | Some n \<Rightarrow> Inr n))"

text \<open>
  \<^verbatim>\<open>locale.delocalize\<close> under \<^verbatim>\<open>en_US.UTF-8\<close> (line 13): the thousands separator is
  the comma and every occurrence of it is removed; the decimal point is already
  the dot. \<^verbatim>\<open>locale.atoi(s)\<close> is \<^verbatim>\<open>int(delocalize(s))\<close>.
\<close>

definition delocalize :: "string \<Rightarrow> string" where
  "delocalize s = filter (\<lambda>c. c \<noteq> CHR '','') s"

definition atoi :: "string \<Rightarrow> py_exception + int" where
  "atoi s = py_int (delocalize s)"

section \<open>The record store\<close>

text \<open>
  An SQLite database is seen through its only table, \<^verbatim>\<open>repositories\<close>: \<open>None\<close> when
  the table does not exist, its rows in insertion order otherwise. The file system
  says of every path what SQLite finds there: a database, nothing (and a database
  can be created), or a location it cannot use (a directory that does not exist,
  a file that is not a database, a file or a disk that cannot be written), with
  the exception that \<^verbatim>\<open>connect\<close> or the first statement raises there.
\<close>

type_synonym database = "row list option"



record storage =
  path :: string
  db :: database
  closed :: bool




section \<open>The environment\<close>

text \<open>
  What the program cannot decide is a parameter: \<open>net k u\<close> is the outcome of
  \<^verbatim>\<open>requests.get(u)\<close> when \<open>k\<close> requests were made before, either a failure (every
  exception of \<^verbatim>\<open>requests\<close>: invalid URL, no connection, timeout) or a response
  with its status code and its body, given as the tree the HTML parser builds
  from it; \<open>write_fault k\<close> says that the insertion into a table of \<open>k\<close> rows fails
  (disk full, database locked); \<open>random k\<close> gives the value of \<^verbatim>\<open>random.random()\<close>
  after \<open>k\<close> requests, a multiple of \<open>1 / 2 ^ 53\<close> below 1, by its numerator
  (taken modulo \<open>2 ^ 53\<close>).
\<close>

datatype http_result = Failure | Response nat element

record world =
  net :: "nat \<Rightarrow> string \<Rightarrow> http_result"
  write_fault :: "nat \<Rightarrow> bool"
  random :: "nat \<Rightarrow> nat"

text \<open>
  \<^verbatim>\<open>requests.get(url)\<close> (line 74) returns the response whatever its status code:
  the source never calls \<^verbatim>\<open>raise_for_status\<close> nor reads \<^verbatim>\<open>status_code\<close>.
\<close>

definition requests_get :: "world \<Rightarrow> nat \<Rightarrow> string \<Rightarrow> py_exception + nat \<times> element" where
  "requests_get w k u =
     (case net w k u of
        Failure \<Rightarrow> Inl RequestException
      | Response status body \<Rightarrow> Inr (status, body))"

text \<open>
  \<^verbatim>\<open>Storage.store\<close> (lines 46 to 52): one \<^verbatim>\<open>insert\<close> and a commit. A closed
  connection raises \<^verbatim>\<open>ProgrammingError\<close>, a missing table \<^verbatim>\<open>OperationalError\<close>, and
  a count that does not fit a signed 64-bit integer \<^verbatim>\<open>OverflowError\<close>, in this
  order.
\<close>

definition sqlite_integer :: "int \<Rightarrow> bool" where
  "sqlite_integer n = (- (2 ^ 63) \<le> n \<and> n < 2 ^ 63)"

definition store :: "world \<Rightarrow> storage \<Rightarrow> repository \<Rightarrow> py_exception + storage" where
  "store w st repo =
     (if closed st then Inl ProgrammingError
      else (case db st of
              None \<Rightarrow> Inl OperationalError
            | Some rs \<Rightarrow>
                if \<not> (sqlite_integer (num_stars repo) \<and> sqlite_integer (num_forks repo))
                then Inl OverflowError
                else if write_fault w (length rs) then Inl OperationalError
                else Inr (st\<lparr>db := Some (rs @ [to_tuple repo])\<rparr>)))"

text \<open>\<^verbatim>\<open>Storage.close\<close> (lines 54 to 56).\<close>

definition close :: "storage \<Rightarrow> storage" where
  "close st = st\<lparr>closed := True\<rparr>"

section \<open>The crawler\<close>

text \<open>
  The fields of \<^verbatim>\<open>Crawler\<close>, and with them the URLs handed to \<^verbatim>\<open>requests.get\<close> so
  far, in order: the requests are the crawler's effect on the network.
\<close>

record crawler =
  url :: "string option"
  interval :: int
  storage :: storage
  requested :: "string list"

definition crawler_init :: "string \<Rightarrow> int \<Rightarrow> storage \<Rightarrow> crawler" where
  "crawler_init u i st = \<lparr>url = Some u, interval = i, storage = st, requested = []\<rparr>"

text \<open>A call returns with the new state, or raises with the state it left behind.\<close>

datatype outcome = Returned crawler | Raised py_exception crawler

fun final :: "outcome \<Rightarrow> crawler" where
  "final (Returned c) = c"
| "final (Raised e c) = c"

text \<open>\<^verbatim>\<open>Crawler._crawlable\<close> (lines 103 and 104).\<close>

definition crawlable :: "crawler \<Rightarrow> bool" where
  "crawlable c = (url c \<noteq> None)"

text \<open>
  \<^verbatim>\<open>Crawler._wait\<close> (lines 106 to 109) changes nothing, but it can raise. The
  product \<^verbatim>\<open>random.random() * self._interval\<close> converts the interval to a float,
  which raises \<^verbatim>\<open>OverflowError\<close> from \<open>2 ^ 1024 - 2 ^ 970\<close> on; \<^verbatim>\<open>time.sleep\<close> raises
  \<^verbatim>\<open>OverflowError\<close> for a length of \<open>2 ^ 63\<close> nanoseconds or more, in either
  direction, and \<^verbatim>\<open>ValueError\<close> for a negative length. With the draw \<open>r / 2 ^ 53\<close> and
  the interval \<open>i\<close> the length is \<open>r * i / 2 ^ 53\<close> seconds; the bounds are those
  of the exact product. The rounding of the float is not modelled, nor is what a
  platform does with a length just below \<open>2 ^ 63\<close> nanoseconds, where the deadline
  of the sleep can leave the range of its clock.
\<close>

definition wait :: "world \<Rightarrow> crawler \<Rightarrow> outcome" where
  "wait w c =
     (let r = int (random w (length (requested c)) mod 2 ^ 53); i = interval c in
      if 2 ^ 1024 - 2 ^ 970 \<le> \<bar>i\<bar> then Raised OverflowError c
      else if 2 ^ 116 \<le> \<bar>r * i\<bar> * 10 ^ 9 then Raised OverflowError c
      else if r * i < 0 then Raised ValueError c
      else Returned c)"

text \<open>
  \<^verbatim>\<open>Crawler._authority\<close> (lines 111 to 117). The last branch is \<^verbatim>\<open>assert False\<close>,
  which raises as long as the interpreter runs with assertions enabled, its
  default.
\<close>

definition crawler_authority :: "element option \<Rightarrow> element option \<Rightarrow> py_exception + string" where
  "crawler_authority org_tag user_tag =
     (case org_tag of
        Some t \<Rightarrow> Inr (get_text t)
      | None \<Rightarrow>
          (case user_tag of
             Some t \<Rightarrow> Inr (get_text t)
           | None \<Rightarrow> Inl AssertionError))"

text \<open>\<^verbatim>\<open>Crawler._after_crawl\<close> (lines 119 to 128); the first branch assigns twice.\<close>

definition after_crawl :: "element option \<Rightarrow> crawler \<Rightarrow> crawler" where
  "after_crawl next_tag c =
     (case next_tag of
        None \<Rightarrow> (c\<lparr>url := None\<rparr>)\<lparr>url := None\<rparr>
      | Some t \<Rightarrow>
          if \<not> has_attr t ''href'' then (c\<lparr>url := None\<rparr>)\<lparr>url := None\<rparr>
          else c\<lparr>url := get_attr t ''href''\<rparr>)"

text \<open>
  The body of the loop over the rows up to the construction of the record
  (lines 77 to 97), in the order of the source: the metadata block, the two
  owner links and \<^verbatim>\<open>_authority\<close>, the repository link, the two badges, the two
  numbers.
\<close>

definition parse_row :: "element \<Rightarrow> py_exception + repository" where
  "parse_row row =
     (case find_class ''f5 color-fg-muted'' row of
        None \<Rightarrow> Inl AttributeError
      | Some meta \<Rightarrow>
          (case crawler_authority (find_hovercard ''organization'' meta)
                                  (find_hovercard ''user'' meta) of
             Inl e \<Rightarrow> Inl e
           | Inr auth \<Rightarrow>
               (case find_hovercard ''repository'' meta of
                  None \<Rightarrow> Inl AttributeError
                | Some repo_tag \<Rightarrow>
                    (case find_all_class ''color-fg-muted text-bold pl-3'' row of
                       [star_tag, fork_tag] \<Rightarrow>
                         (case atoi (strip (get_text star_tag)) of
                            Inl e \<Rightarrow> Inl e
                          | Inr stars \<Rightarrow>
                              (case atoi (strip (get_text fork_tag)) of
                                 Inl e \<Rightarrow> Inl e
                               | Inr forks \<Rightarrow>
                                   Inr \<lparr>authority = auth, name = get_text repo_tag,
                                        num_stars = stars, num_forks = forks\<rparr>))
                     | _ \<Rightarrow> Inl ValueError))))"

text \<open>The loop over the rows (lines 76 to 98): each record is stored at once.\<close>

fun parse_rows :: "world \<Rightarrow> element list \<Rightarrow> crawler \<Rightarrow> outcome" where
  "parse_rows w [] c = Returned c"
| "parse_rows w (r # rs) c =
     (case parse_row r of
        Inl e \<Rightarrow> Raised e c
      | Inr data \<Rightarrow>
          (case store w (storage c) data of
             Inl e \<Rightarrow> Raised e c
           | Inr st \<Rightarrow> parse_rows w rs (c\<lparr>storage := st\<rparr>)))"

text \<open>\<^verbatim>\<open>Crawler._parse\<close> (lines 73 to 101).\<close>

definition parse :: "world \<Rightarrow> string \<Rightarrow> crawler \<Rightarrow> outcome" where
  "parse w u c =
     (let c1 = c\<lparr>requested := requested c @ [u]\<rparr> in
      case requests_get w (length (requested c)) u of
        Inl e \<Rightarrow> Raised e c1
      | Inr (status, soup) \<Rightarrow>
          (case parse_rows w (find_all_class ''Box-row'' soup) c1 of
             Raised e c2 \<Rightarrow> Raised e c2
           | Returned c2 \<Rightarrow> Returned (after_crawl (find_next soup) c2)))"

text \<open>The body of the loop of \<^verbatim>\<open>Crawler.crawl\<close> (lines 67 to 69).\<close>

definition iteration :: "world \<Rightarrow> crawler \<Rightarrow> outcome" where
  "iteration w c =
     (case parse w (the (url c)) c of
        Raised e c' \<Rightarrow> Raised e c'
      | Returned c' \<Rightarrow> wait w c')"

text \<open>
  The loop of \<^verbatim>\<open>Crawler.crawl\<close> (lines 66 to 69). Nothing bounds the number of
  pages, so the loop takes fuel, one unit for each iteration; \<open>None\<close> is a run that
  needs more.
\<close>

fun crawl_loop :: "world \<Rightarrow> nat \<Rightarrow> crawler \<Rightarrow> outcome option" where
  "crawl_loop w 0 c = (if crawlable c then None else Some (Returned c))"
| "crawl_loop w (Suc n) c =
     (if crawlable c then
        (case iteration w c of
           Raised e c' \<Rightarrow> Some (Raised e c')
         | Returned c' \<Rightarrow> crawl_loop w n c')
      else Some (Returned c))"

text \<open>\<^verbatim>\<open>Crawler.crawl\<close> (lines 65 to 71): the loop, then \<^verbatim>\<open>self._storage.close()\<close>.\<close>

definition crawl :: "world \<Rightarrow> nat \<Rightarrow> crawler \<Rightarrow> outcome option" where
  "crawl w n c =
     (case crawl_loop w n c of
        None \<Rightarrow> None
      | Some (Raised e c') \<Rightarrow> Some (Raised e c')
      | Some (Returned c') \<Rightarrow> Some (Returned (c'\<lparr>storage := close (storage c')\<rparr>)))"

text \<open>
  The cursor at the head of the loop, iteration after iteration, for as long as
  the fuel lasts and no iteration raises.
\<close>

fun cursor_trace :: "world \<Rightarrow> nat \<Rightarrow> crawler \<Rightarrow> string option list" where
  "cursor_trace w 0 c = [url c]"
| "cursor_trace w (Suc n) c =
     url c #
     (if crawlable c then
        (case iteration w c of
           Raised e c' \<Rightarrow> []
         | Returned c' \<Rightarrow> cursor_trace w n c')
      else [])"

text \<open>How often a list of cursors goes from a URL to none.\<close>

fun transitions_to_none :: "string option list \<Rightarrow> nat" where
  "transitions_to_none (x # y # r) =
     (if x \<noteq> None \<and> y = None then 1 else 0) + transitions_to_none (y # r)"
| "transitions_to_none r = 0"

text \<open>
  The state at the head of the loop after \<open>k\<close> iterations that all returned, with
  a cursor at the head of each.
\<close>

fun iterations :: "world \<Rightarrow> nat \<Rightarrow> crawler \<Rightarrow> crawler option" where
  "iterations w 0 c = Some c"
| "iterations w (Suc k) c =
     (if crawlable c then
        (case iteration w c of
           Raised e c' \<Rightarrow> None
         | Returned c' \<Rightarrow> iterations w k c')
      else None)"

section \<open>Sample pages\<close>

text \<open>
  The markup of a listing page as the examples below use it: a link with a hovercard
  type, a numeric badge, a row with its metadata block and its two badges, the
  "Next" control with given attributes, a document, an open empty store, and a
  network that serves the given pages with status 200, fails on every other URL
  and never fails on a write, with every random draw one half.
\<close>

definition sample_link :: "string \<Rightarrow> string \<Rightarrow> element" where
  "sample_link kind txt = Tag ''a'' [] [(''data-hovercard-type'', kind)] [NavigableString txt]"

definition sample_badge :: "string \<Rightarrow> element" where
  "sample_badge txt =
     Tag ''span'' [''color-fg-muted'', ''text-bold'', ''pl-3''] [] [NavigableString txt]"

definition sample_row :: "element list \<Rightarrow> string \<Rightarrow> string \<Rightarrow> element" where
  "sample_row links stars forks =
     Tag ''div'' [''Box-row'', ''d-flex''] []
       [Tag ''span'' [''f5'', ''color-fg-muted''] [] links,
        Tag ''div'' [] [] [sample_badge stars, sample_badge forks]]"

definition sample_next :: "(string \<times> string) list \<Rightarrow> element" where
  "sample_next at = Tag ''a'' [''btn'', ''btn-outline'', ''BtnGroup-item''] at [NavigableString ''Next'']"

definition sample_page :: "element list \<Rightarrow> element" where
  "sample_page cs = Tag ''[document]'' [] [] cs"

definition sample_storage :: storage where
  "sample_storage = \<lparr>path = '':memory:'', db = Some [], closed = False\<rparr>"

definition sample_world :: "(string \<times> element) list \<Rightarrow> world" where
  "sample_world pages =
     \<lparr>net = (\<lambda>k u. case map_of pages u of None \<Rightarrow> Failure | Some p \<Rightarrow> Response 200 p),
      write_fault = (\<lambda>k. False),
      random = (\<lambda>k. 4503599627370496)\<rparr>"

text \<open>
  Three rows: one owned by a user, one by an organization, and one with a
  repository link but no owner link. A site of two pages: the first has two rows
  and a "Next" link to the second, which has one row and no "Next" link.
\<close>

definition sample_user_row :: element where
  "sample_user_row =
     sample_row [sample_link ''user'' ''octocat'', sample_link ''repository'' ''hello''] ''1,234'' ''0''"

definition sample_org_row :: element where
  "sample_org_row =
     sample_row [sample_link ''organization'' ''acme'', sample_link ''repository'' ''anvil''] ''12'' ''3''"

definition sample_orphan_row :: element where
  "sample_orphan_row = sample_row [sample_link ''repository'' ''orphan''] ''1'' ''1''"

definition sample_site :: world where
  "sample_site = sample_world
     [(''p1'', sample_page [sample_user_row, sample_org_row, sample_next [(''href'', ''p2'')]]),
      (''p2'', sample_page [sample_user_row])]"

lemmas page_defs = find_all_class_def find_class_def find_hovercard_def find_next_def
  has_attr_def sample_link_def sample_badge_def sample_row_def sample_next_def sample_page_def

lemmas number_defs = atoi_def strip_def delocalize_def py_int_def isspace_def isdigit_def
  int_space_def int_strip_def int_digits_def
  digit_value_def

lemmas crawler_defs = parse_def requests_get_def store_def close_def crawler_init_def
  crawlable_def wait_def iteration_def crawler_authority_def after_crawl_def parse_row_def
  to_tuple_def crawl_def sqlite_integer_def sample_storage_def

lemmas eval_defs = page_defs number_defs crawler_defs sample_world_def
  sample_user_row_def sample_org_row_def sample_orphan_row_def sample_site_def

section \<open>Properties of the number parsing\<close>

text \<open>A string without a minus sign never parses to a negative number.\<close>

lemma digit_value_nonneg: "isdigit c \<Longrightarrow> 0 \<le> digit_value c"
  by (simp add: isdigit_def digit_value_def)

lemma parse_digits_nonneg:
  "parse_digits prev acc s = Some n \<Longrightarrow> 0 \<le> acc \<Longrightarrow> 0 \<le> n"
proof (induction s arbitrary: prev acc)
  case Nil
  then show ?case by (simp split: if_splits)
next
  case (Cons c cs)
  show ?case
  proof (cases "isdigit c")
    case True
    with Cons.prems have "parse_digits True (10 * acc + digit_value c) cs = Some n" by simp
    moreover have "0 \<le> 10 * acc + digit_value c"
      using True Cons.prems(2) digit_value_nonneg [of c] by simp
    ultimately show ?thesis by (rule Cons.IH)
  next
    case False
    with Cons.prems have "parse_digits False acc cs = Some n" by (simp split: if_splits)
    then show ?thesis using Cons.prems(2) by (rule Cons.IH)
  qed
qed

lemma set_strip: "set (strip s) \<subseteq> set s"
proof -
  have "set (strip s) \<subseteq> set (dropWhile isspace s)"
    unfolding strip_def using set_dropWhileD [of _ isspace "rev (dropWhile isspace s)"] by auto
  also have "\<dots> \<subseteq> set s" using set_dropWhileD [of _ isspace s] by auto
  finally show ?thesis .
qed

lemma set_int_strip: "set (int_strip s) \<subseteq> set s"
proof -
  have "set (int_strip s) \<subseteq> set (dropWhile int_space s)"
    unfolding int_strip_def
    using set_dropWhileD [of _ int_space "rev (dropWhile int_space s)"] by auto
  also have "\<dots> \<subseteq> set s" using set_dropWhileD [of _ int_space s] by auto
  finally show ?thesis .
qed

lemma int_digits_nonneg: "int_digits s = Some n \<Longrightarrow> 0 \<le> n"
  using parse_digits_nonneg [of False 0 s n]
  by (simp add: int_digits_def del: parse_digits.simps split: if_splits)

lemma py_int_nonneg:
  assumes "py_int s = Inr n" and "CHR ''-'' \<notin> set s"
  shows "0 \<le> n"
proof (cases "int_strip s")
  case Nil
  with assms(1) show ?thesis by (simp add: py_int_def)
next
  case (Cons c cs)
  have "c \<in> set s" using set_int_strip [of s] Cons by auto
  with assms(2) have nm: "c \<noteq> CHR ''-''" by auto
  show ?thesis
  proof (cases "c = CHR ''+''")
    case True
    with assms(1) Cons nm have "int_digits cs = Some n"
      by (simp add: py_int_def split: option.splits)
    then show ?thesis by (rule int_digits_nonneg)
  next
    case False
    with assms(1) Cons nm have "int_digits (c # cs) = Some n"
      by (simp add: py_int_def split: option.splits)
    then show ?thesis by (rule int_digits_nonneg)
  qed
qed

lemma atoi_nonneg:
  assumes "atoi (strip s) = Inr n" and "CHR ''-'' \<notin> set s"
  shows "0 \<le> n"
proof -
  have "set (delocalize (strip s)) \<subseteq> set s"
    using set_strip [of s] by (auto simp: delocalize_def)
  with assms(2) have "CHR ''-'' \<notin> set (delocalize (strip s))" by auto
  with assms(1) show ?thesis unfolding atoi_def by (rule py_int_nonneg)
qed

lemma atoi_raises_ValueError: "atoi s = Inl e \<Longrightarrow> e = ValueError"
  by (auto simp: atoi_def py_int_def split: list.splits option.splits if_splits)

section \<open>Properties of the loop over the rows\<close>

text \<open>
  The loop over the rows touches nothing but the table, and what it appends to the
  table are the records of a prefix of the rows, all of them when it returns.
\<close>

lemma parse_rows_append:
  "parse_rows w (xs @ ys) c =
     (case parse_rows w xs c of Raised e c' \<Rightarrow> Raised e c' | Returned c' \<Rightarrow> parse_rows w ys c')"
  by (induction xs arbitrary: c) (simp_all split: sum.splits)

lemma store_Inr:
  "store w st repo = Inr st' \<Longrightarrow>
     \<exists>rs. db st = Some rs \<and> st' = st\<lparr>db := Some (rs @ [to_tuple repo])\<rparr>"
  by (auto simp: store_def split: if_splits option.splits)

lemma parse_rows_frame:
  "url (final (parse_rows w rows c)) = url c
   \<and> requested (final (parse_rows w rows c)) = requested c
   \<and> interval (final (parse_rows w rows c)) = interval c
   \<and> closed (storage (final (parse_rows w rows c))) = closed (storage c)
   \<and> path (storage (final (parse_rows w rows c))) = path (storage c)"
proof (induction rows arbitrary: c)
  case Nil
  show ?case by simp
next
  case (Cons r rs)
  show ?case
  proof (cases "parse_row r")
    case (Inl e)
    then show ?thesis by simp
  next
    case (Inr data)
    show ?thesis
    proof (cases "store w (storage c) data")
      case (Inl e)
      with Inr show ?thesis by simp
    next
      case st: (Inr st)
      from store_Inr [OF st] obtain old where
        "st = (storage c)\<lparr>db := Some (old @ [to_tuple data])\<rparr>" by blast
      with Inr st Cons.IH [of "c\<lparr>storage := st\<rparr>"] show ?thesis by simp
    qed
  qed
qed

lemma parse_rows_stored:
  "\<exists>k recs. k \<le> length rows \<and> map parse_row (take k rows) = map Inr recs
     \<and> db (storage (final (parse_rows w rows c)))
         = map_option (\<lambda>old. old @ map to_tuple recs) (db (storage c))
     \<and> (\<forall>c'. parse_rows w rows c = Returned c' \<longrightarrow> k = length rows)"
proof (induction rows arbitrary: c)
  case Nil
  have "map_option (\<lambda>old. old @ map to_tuple []) (db (storage c)) = db (storage c)"
    by (cases "db (storage c)") simp_all
  then show ?case by (intro exI [of _ 0] exI [of _ "[]"]) simp
next
  case (Cons r rs)
  have idle: "map_option (\<lambda>old. old @ map to_tuple []) (db (storage c)) = db (storage c)"
    by (cases "db (storage c)") simp_all
  show ?case
  proof (cases "parse_row r")
    case (Inl e)
    with idle show ?thesis by (intro exI [of _ 0] exI [of _ "[]"]) simp
  next
    case (Inr data)
    show ?thesis
    proof (cases "store w (storage c) data")
      case (Inl e)
      with Inr idle show ?thesis by (intro exI [of _ 0] exI [of _ "[]"]) simp
    next
      case st: (Inr st)
      from store_Inr [OF st] obtain old where old: "db (storage c) = Some old"
        and st': "st = (storage c)\<lparr>db := Some (old @ [to_tuple data])\<rparr>" by blast
      let ?c = "c\<lparr>storage := st\<rparr>"
      from Cons.IH [of ?c] obtain k recs where k: "k \<le> length rs"
        and recs: "map parse_row (take k rs) = map Inr recs"
        and dbf: "db (storage (final (parse_rows w rs ?c)))
                    = map_option (\<lambda>old. old @ map to_tuple recs) (db (storage ?c))"
        and ret: "\<forall>c'. parse_rows w rs ?c = Returned c' \<longrightarrow> k = length rs" by blast
      have step: "parse_rows w (r # rs) c = parse_rows w rs ?c" using Inr st by simp
      show ?thesis
        using k recs dbf ret Inr old st' step
        by (intro exI [of _ "Suc k"] exI [of _ "data # recs"]) simp
    qed
  qed
qed

lemma parse_row_counts:
  "parse_row row = Inr r \<Longrightarrow>
     \<exists>s f. find_all_class ''color-fg-muted text-bold pl-3'' row = [s, f]
       \<and> atoi (strip (get_text s)) = Inr (num_stars r)
       \<and> atoi (strip (get_text f)) = Inr (num_forks r)"
  by (auto simp: parse_row_def split: option.splits list.splits sum.splits)

lemma parse_row_badges:
  assumes "parse_row row = Inr r"
  shows "\<exists>s f. find_all_class ''color-fg-muted text-bold pl-3'' row = [s, f]
       \<and> atoi (strip (get_text s)) = Inr (num_stars r)
       \<and> atoi (strip (get_text f)) = Inr (num_forks r)
       \<and> (CHR ''-'' \<notin> set (get_text s) \<longrightarrow> 0 \<le> num_stars r)
       \<and> (CHR ''-'' \<notin> set (get_text f) \<longrightarrow> 0 \<le> num_forks r)"
proof -
  from parse_row_counts [OF assms] obtain s f where
    sf: "find_all_class ''color-fg-muted text-bold pl-3'' row = [s, f]"
    and s: "atoi (strip (get_text s)) = Inr (num_stars r)"
    and f: "atoi (strip (get_text f)) = Inr (num_forks r)" by blast
  from s have "CHR ''-'' \<notin> set (get_text s) \<longrightarrow> 0 \<le> num_stars r"
    by (blast intro: atoi_nonneg)
  moreover from f have "CHR ''-'' \<notin> set (get_text f) \<longrightarrow> 0 \<le> num_forks r"
    by (blast intro: atoi_nonneg)
  ultimately show ?thesis using sf s f by blast
qed

lemma descendants_trans:
  "x \<in> set (descendants t) \<Longrightarrow> set (descendants x) \<subseteq> set (descendants t)"
proof (induction t)
  case (NavigableString s)
  then show ?case by simp
next
  case (Tag n cl at cs)
  from Tag.prems obtain c where c: "c \<in> set cs" and x: "x = c \<or> x \<in> set (descendants c)"
    by auto
  have "set (descendants c) \<subseteq> set (descendants (Tag n cl at cs))" using c by auto
  moreover have "set (descendants x) \<subseteq> set (descendants c)"
    using x Tag.IH [OF c] by auto
  ultimately show ?case by blast
qed

lemma find_hovercard_below:
  assumes "find_class cls row = Some meta" and "find_hovercard v row = None"
  shows "find_hovercard v meta = None"
proof -
  from assms(1) have "meta \<in> set (descendants row)"
    by (auto simp: find_class_def find_Some_iff)
  then have "set (descendants meta) \<subseteq> set (descendants row)" by (rule descendants_trans)
  with assms(2) show ?thesis by (auto simp: find_hovercard_def find_None_iff)
qed

lemma parse_row_no_owner:
  assumes "find_hovercard ''organization'' row = None"
    and "find_hovercard ''user'' row = None"
  shows "parse_row row =
     (case find_class ''f5 color-fg-muted'' row of
        None \<Rightarrow> Inl AttributeError | Some meta \<Rightarrow> Inl AssertionError)"
proof (cases "find_class ''f5 color-fg-muted'' row")
  case None
  then show ?thesis by (simp add: parse_row_def)
next
  case (Some meta)
  with assms have "find_hovercard ''organization'' meta = None" "find_hovercard ''user'' meta = None"
    by (blast intro: find_hovercard_below)+
  with Some show ?thesis by (simp add: parse_row_def crawler_authority_def)
qed

section \<open>Properties of one page\<close>


lemma after_crawl_eq:
  "after_crawl nt c = c\<lparr>url := (case nt of None \<Rightarrow> None | Some t \<Rightarrow> get_attr t ''href'')\<rparr>"
  by (cases nt) (auto simp: after_crawl_def has_attr_def)

lemma after_crawl_frame:
  "storage (after_crawl nt c) = storage c \<and> requested (after_crawl nt c) = requested c
   \<and> interval (after_crawl nt c) = interval c"
  by (cases nt) (simp_all add: after_crawl_def)

lemma parse_Failure:
  "net w (length (requested c)) u = Failure \<Longrightarrow>
     parse w u c = Raised RequestException (c\<lparr>requested := requested c @ [u]\<rparr>)"
  by (simp add: parse_def requests_get_def)

lemma parse_Response:
  "net w (length (requested c)) u = Response status soup \<Longrightarrow>
     parse w u c =
       (case parse_rows w (find_all_class ''Box-row'' soup) (c\<lparr>requested := requested c @ [u]\<rparr>) of
          Raised e c2 \<Rightarrow> Raised e c2
        | Returned c2 \<Rightarrow> Returned (after_crawl (find_next soup) c2))"
  by (simp add: parse_def requests_get_def)

lemma parse_frame:
  "requested (final (parse w u c)) = requested c @ [u]
   \<and> closed (storage (final (parse w u c))) = closed (storage c)
   \<and> interval (final (parse w u c)) = interval c"
proof (cases "net w (length (requested c)) u")
  case Failure
  then show ?thesis by (simp add: parse_Failure)
next
  case (Response status soup)
  let ?c1 = "c\<lparr>requested := requested c @ [u]\<rparr>"
  let ?rows = "find_all_class ''Box-row'' soup"
  have fr: "requested (final (parse_rows w ?rows ?c1)) = requested ?c1"
    "closed (storage (final (parse_rows w ?rows ?c1))) = closed (storage ?c1)"
    "interval (final (parse_rows w ?rows ?c1)) = interval ?c1"
    using parse_rows_frame [of w ?rows ?c1] by blast+
  show ?thesis
  proof (cases "parse_rows w ?rows ?c1")
    case (Returned c2)
    with fr Response show ?thesis by (simp add: parse_Response after_crawl_frame)
  next
    case (Raised e c2)
    with fr Response show ?thesis by (simp add: parse_Response)
  qed
qed

lemma parse_db:
  assumes "net w (length (requested c)) u = Response status soup"
  shows "db (storage (final (parse w u c)))
    = db (storage (final (parse_rows w (find_all_class ''Box-row'' soup)
        (c\<lparr>requested := requested c @ [u]\<rparr>))))"
  by (cases "parse_rows w (find_all_class ''Box-row'' soup) (c\<lparr>requested := requested c @ [u]\<rparr>)")
    (simp_all add: parse_Response [OF assms] after_crawl_frame)

section \<open>Properties of the crawl loop\<close>

text \<open>
  The wait changes nothing, and returns when the interval is not negative and
  short enough to sleep.
\<close>

lemma wait_final: "final (wait w c) = c"
  by (simp add: wait_def Let_def)

lemma wait_returns:
  assumes "0 \<le> interval c" and "interval c * 10 ^ 9 < 2 ^ 63"
  shows "wait w c = Returned c"
proof -
  define r where "r = int (random w (length (requested c)) mod 2 ^ 53)"
  have r0: "0 \<le> r" by (simp add: r_def)
  have "int (random w (length (requested c)) mod 2 ^ 53) < int (2 ^ 53)"
    unfolding of_nat_less_iff by simp
  then have r1: "r < 2 ^ 53" unfolding r_def by simp
  have "interval c * 1 \<le> interval c * 10 ^ 9"
    using assms(1) by (intro mult_left_mono) simp_all
  with assms(2) have small: "interval c < 2 ^ 63" by simp
  have "(2 :: int) ^ 63 < 2 ^ 1024 - 2 ^ 970" by simp
  with small assms(1) have conv: "\<not> 2 ^ 1024 - 2 ^ 970 \<le> \<bar>interval c\<bar>" by simp
  have "r * (interval c * 10 ^ 9) \<le> r * 2 ^ 63"
    using r0 assms(2) by (intro mult_left_mono) simp_all
  also have "\<dots> < 2 ^ 53 * 2 ^ 63" using r1 by simp
  finally have "r * interval c * 10 ^ 9 < 2 ^ 116" by (simp add: mult.assoc)
  moreover have nn: "0 \<le> r * interval c" using r0 assms(1) by simp
  ultimately have len: "\<not> 2 ^ 116 \<le> \<bar>r * interval c\<bar> * 10 ^ 9" by simp
  from conv len nn show ?thesis
    unfolding wait_def Let_def r_def [symmetric] by simp
qed

lemma iteration_frame:
  "requested (final (iteration w c)) = requested c @ [the (url c)]
   \<and> closed (storage (final (iteration w c))) = closed (storage c)
   \<and> interval (final (iteration w c)) = interval c"
proof (cases "parse w (the (url c)) c")
  case (Returned c')
  with parse_frame [of w "the (url c)" c] show ?thesis
    by (simp add: iteration_def wait_final)
next
  case (Raised e c')
  with parse_frame [of w "the (url c)" c] show ?thesis
    by (simp add: iteration_def)
qed

lemma iteration_parse_Raised:
  "parse w (the (url c)) c = Raised e c' \<Longrightarrow> iteration w c = Raised e c'"
  by (simp add: iteration_def)

text \<open>
  More fuel does not change the result of a run that ended; a run that made \<open>k\<close>
  iterations continues from the state they left.
\<close>

lemma crawl_loop_mono:
  "crawl_loop w n c = Some r \<Longrightarrow> crawl_loop w (n + m) c = Some r"
proof (induction n arbitrary: c)
  case 0
  then show ?case by (cases m) (simp_all split: if_splits)
next
  case (Suc n)
  show ?case
  proof (cases "crawlable c")
    case False
    with Suc.prems show ?thesis by simp
  next
    case True
    show ?thesis
    proof (cases "iteration w c")
      case (Raised e c')
      with True Suc.prems have "r = Raised e c'" by simp
      with True Raised show ?thesis by simp
    next
      case (Returned c')
      with True Suc.prems have "crawl_loop w n c' = Some r" by simp
      then have "crawl_loop w (n + m) c' = Some r" by (rule Suc.IH)
      with True Returned show ?thesis by simp
    qed
  qed
qed

lemma crawl_loop_done: "\<not> crawlable c \<Longrightarrow> crawl_loop w n c = Some (Returned c)"
  by (cases n) simp_all

lemma cursor_trace_done: "\<not> crawlable c \<Longrightarrow> cursor_trace w n c = [url c]"
  by (cases n) simp_all

lemma iterations_Suc:
  assumes "iterations w (Suc k) c = Some ck"
  obtains c' where "crawlable c" and "iteration w c = Returned c'"
    and "iterations w k c' = Some ck"
proof -
  from assms have cr: "crawlable c" by (simp split: if_splits)
  with assms obtain c' where "iteration w c = Returned c'" "iterations w k c' = Some ck"
    by (cases "iteration w c") simp_all
  with cr that show ?thesis by blast
qed

lemma iterations_crawl_loop:
  "iterations w k c = Some ck \<Longrightarrow> crawl_loop w (k + n) c = crawl_loop w n ck"
proof (induction k arbitrary: c)
  case 0
  then show ?case by simp
next
  case (Suc k)
  from Suc.prems obtain c' where cr: "crawlable c" and p: "iteration w c = Returned c'"
    and it: "iterations w k c' = Some ck" by (rule iterations_Suc)
  from Suc.IH [OF it] cr p show ?case by simp
qed

lemma iterations_add:
  "iterations w (k + j) c =
     (case iterations w k c of None \<Rightarrow> None | Some ck \<Rightarrow> iterations w j ck)"
proof (induction k arbitrary: c)
  case 0
  show ?case by simp
next
  case (Suc k)
  show ?case
  proof (cases "crawlable c")
    case False
    then show ?thesis by simp
  next
    case True
    then show ?thesis
      by (cases "iteration w c") (simp_all add: Suc.IH)
  qed
qed

lemma iterations_frame:
  "iterations w k c = Some ck \<Longrightarrow>
     closed (storage ck) = closed (storage c) \<and> interval ck = interval c"
proof (induction k arbitrary: c)
  case 0
  then show ?case by simp
next
  case (Suc k)
  from Suc.prems obtain c' where cr: "crawlable c" and p: "iteration w c = Returned c'"
    and it: "iterations w k c' = Some ck" by (rule iterations_Suc)
  have "closed (storage c') = closed (storage c) \<and> interval c' = interval c"
    using iteration_frame [of w c] p by simp
  with Suc.IH [OF it] show ?case by simp
qed

lemma iterations_trace:
  "iterations w k c = Some ck \<Longrightarrow>
     \<exists>us. length us = k \<and> cursor_trace w (k + n) c = map Some us @ cursor_trace w n ck"
proof (induction k arbitrary: c)
  case 0
  then show ?case by simp
next
  case (Suc k)
  from Suc.prems obtain c' where cr: "crawlable c" and p: "iteration w c = Returned c'"
    and it: "iterations w k c' = Some ck" by (rule iterations_Suc)
  from cr obtain u where u: "url c = Some u" by (auto simp: crawlable_def)
  from Suc.IH [OF it] obtain us where "length us = k"
    and "cursor_trace w (k + n) c' = map Some us @ cursor_trace w n ck" by blast
  with cr p u show ?case by (intro exI [of _ "u # us"]) simp
qed

lemma transitions_to_none_Some:
  "transitions_to_none (map Some us @ Some u # r) = transitions_to_none (Some u # r)"
proof (induction us)
  case Nil
  show ?case by simp
next
  case (Cons a us)
  then show ?case by (cases us) simp_all
qed

section \<open>The claims\<close>

text \<open>
  C1, as stated, fails on the code: a response with status 404 is not an error.
  Its body is parsed like any page; here it has no row and no "Next" control, so
  the call returns and the cursor is none.
\<close>

theorem fetch_status_counterexample:
  "parse \<lparr>net = (\<lambda>k u. Response 404 (Tag ''[document]'' [] [] [NavigableString ''Not Found''])),
          write_fault = (\<lambda>k. False), random = (\<lambda>k. 0)\<rparr>
     ''https://github.com/missing''
     \<lparr>url = Some ''https://github.com/missing'', interval = 5,
      storage = \<lparr>path = '':memory:'', db = Some [], closed = False\<rparr>, requested = []\<rparr>
   = Returned \<lparr>url = None, interval = 5,
      storage = \<lparr>path = '':memory:'', db = Some [], closed = False\<rparr>,
      requested = [''https://github.com/missing'']\<rparr>"
  by (simp add: eval_defs)

text \<open>
  C1, amended. A fetch whose connection fails raises the exception of \<^verbatim>\<open>requests\<close>,
  a network error, and the page is not parsed; a fetch that gets a response, of any
  status code, success or not, returns its body, which is parsed as the page: the
  result of \<open>parse\<close> does not depend on the status.
\<close>

theorem fetch_fails_on_connection_only:
  "(net w (length (requested c)) u = Failure \<longrightarrow>
      requests_get w (length (requested c)) u = Inl RequestException
      \<and> fault_class RequestException = NetworkError
      \<and> parse w u c = Raised RequestException (c\<lparr>requested := requested c @ [u]\<rparr>))
   \<and> (\<forall>status soup. net w (length (requested c)) u = Response status soup \<longrightarrow>
      requests_get w (length (requested c)) u = Inr (status, soup)
      \<and> parse w u c =
          (case parse_rows w (find_all_class ''Box-row'' soup)
                  (c\<lparr>requested := requested c @ [u]\<rparr>) of
             Raised e c2 \<Rightarrow> Raised e c2
           | Returned c2 \<Rightarrow> Returned (after_crawl (find_next soup) c2)))"
  by (simp add: parse_Failure parse_Response) (simp add: requests_get_def)

theorem fetch_fails_on_connection_only_witness:
  "net (sample_world []) (length (requested (crawler_init ''u'' 5 sample_storage))) ''u'' = Failure
   \<and> parse (sample_world []) ''u'' (crawler_init ''u'' 5 sample_storage)
       = Raised RequestException
           \<lparr>url = Some ''u'', interval = 5, storage = sample_storage, requested = [''u'']\<rparr>
   \<and> net (sample_world [(''u'', sample_page [])]) (length (requested (crawler_init ''u'' 5 sample_storage))) ''u''
       = Response 200 (sample_page [])
   \<and> requests_get (sample_world [(''u'', sample_page [])]) (length (requested (crawler_init ''u'' 5 sample_storage))) ''u''
       = Inr (200, sample_page [])"
  using fetch_fails_on_connection_only [of "sample_world []" "crawler_init ''u'' 5 sample_storage" "''u''"]
    fetch_fails_on_connection_only [of "sample_world [(''u'', sample_page [])]" "crawler_init ''u'' 5 sample_storage" "''u''"]
  by (simp add: eval_defs)

text \<open>
  C2. When all rows of the fetched page are processed, the cursor becomes none if
  the page has no "Next" control or the control has no \<^verbatim>\<open>href\<close>; otherwise it
  becomes the value of the control's \<^verbatim>\<open>href\<close>, unmodified.
\<close>

theorem next_page_verbatim:
  assumes "net w (length (requested c)) u = Response status soup"
    and "parse_rows w (find_all_class ''Box-row'' soup) (c\<lparr>requested := requested c @ [u]\<rparr>)
           = Returned c2"
  shows "parse w u c =
           Returned (c2\<lparr>url := (case find_next soup of None \<Rightarrow> None
                                 | Some t \<Rightarrow> get_attr t ''href'')\<rparr>)
     \<and> (find_next soup = None \<longrightarrow> url (final (parse w u c)) = None)
     \<and> (\<forall>t. find_next soup = Some t \<and> \<not> has_attr t ''href'' \<longrightarrow>
           url (final (parse w u c)) = None)
     \<and> (\<forall>t v. find_next soup = Some t \<and> get_attr t ''href'' = Some v \<longrightarrow>
           url (final (parse w u c)) = Some v)"
  using assms by (auto simp: parse_Response after_crawl_eq has_attr_def)

theorem next_page_verbatim_witness:
  "net (sample_world [(''p1'', sample_page [sample_user_row, sample_next [(''href'', ''/o/r/network/dependents?after=Mg'')]])])
       (length (requested (crawler_init ''p1'' 5 sample_storage))) ''p1''
     = Response 200 (sample_page [sample_user_row, sample_next [(''href'', ''/o/r/network/dependents?after=Mg'')]])
   \<and> parse (sample_world [(''p1'', sample_page [sample_user_row, sample_next [(''href'', ''/o/r/network/dependents?after=Mg'')]])])
        ''p1'' (crawler_init ''p1'' 5 sample_storage)
       = Returned \<lparr>url = Some ''/o/r/network/dependents?after=Mg'', interval = 5,
           storage = \<lparr>path = '':memory:'', db = Some [(''octocat'', ''hello'', 1234, 0)], closed = False\<rparr>,
           requested = [''p1'']\<rparr>
   \<and> find_next (sample_page [sample_user_row, sample_next [(''rel'', ''nofollow'')]])
       = Some (sample_next [(''rel'', ''nofollow'')])
   \<and> \<not> has_attr (sample_next [(''rel'', ''nofollow'')]) ''href''
   \<and> url (final (parse (sample_world [(''p1'', sample_page [sample_user_row, sample_next [(''rel'', ''nofollow'')]])])
        ''p1'' (crawler_init ''p1'' 5 sample_storage))) = None
   \<and> find_next (sample_page [sample_user_row]) = None
   \<and> url (final (parse (sample_world [(''p1'', sample_page [sample_user_row])])
        ''p1'' (crawler_init ''p1'' 5 sample_storage))) = None"
  using next_page_verbatim
    [of "sample_world [(''p1'', sample_page [sample_user_row, sample_next [(''href'', ''/o/r/network/dependents?after=Mg'')]])]"
        "crawler_init ''p1'' 5 sample_storage" "''p1''" 200
        "sample_page [sample_user_row, sample_next [(''href'', ''/o/r/network/dependents?after=Mg'')]]"]
    next_page_verbatim
    [of "sample_world [(''p1'', sample_page [sample_user_row, sample_next [(''rel'', ''nofollow'')]])]"
        "crawler_init ''p1'' 5 sample_storage" "''p1''" 200
        "sample_page [sample_user_row, sample_next [(''rel'', ''nofollow'')]]"]
    next_page_verbatim
    [of "sample_world [(''p1'', sample_page [sample_user_row])]"
        "crawler_init ''p1'' 5 sample_storage" "''p1''" 200
        "sample_page [sample_user_row]"]
  by (simp add: eval_defs)

text \<open>
  C3, as stated, fails on the code: with the interval -1 a run whose only page has
  no "Next" control leaves the cursor none, but \<^verbatim>\<open>_wait\<close> then asks
  \<^verbatim>\<open>time.sleep\<close> for a negative length, the run ends with \<^verbatim>\<open>ValueError\<close> and
  the store is never closed.
\<close>

theorem negative_interval_counterexample:
  "crawl \<lparr>net = (\<lambda>k u. Response 200 (Tag ''[document]'' [] [] [])),
          write_fault = (\<lambda>k. False), random = (\<lambda>k. 1)\<rparr>
     (Suc 0)
     \<lparr>url = Some ''https://github.com/x'', interval = - 1,
      storage = \<lparr>path = '':memory:'', db = Some [], closed = False\<rparr>, requested = []\<rparr>
   = Some (Raised ValueError
       \<lparr>url = None, interval = - 1,
        storage = \<lparr>path = '':memory:'', db = Some [], closed = False\<rparr>,
        requested = [''https://github.com/x'']\<rparr>)"
  by (simp add: eval_defs)

text \<open>
  C3, amended. In a run whose interval is not negative and below \<open>2 ^ 31\<close>
  seconds, far inside what \<^verbatim>\<open>time.sleep\<close> accepts: when the run reaches, after \<open>k\<close>
  iterations, a page whose rows are processed and which has no "Next" control (or
  one without \<^verbatim>\<open>href\<close>), the cursor is none after that page, the loop ends with any
  fuel above \<open>k\<close> in the state with no cursor, \<^verbatim>\<open>close\<close> is then called on the
  store, and over the whole run the cursor goes from a URL to none exactly once.
\<close>

theorem last_page_ends_crawl:
  assumes "iterations w k c = Some ck"
    and "url ck = Some u"
    and "net w (length (requested ck)) u = Response status soup"
    and "parse_rows w (find_all_class ''Box-row'' soup) (ck\<lparr>requested := requested ck @ [u]\<rparr>)
           = Returned c2"
    and "find_next soup = None \<or> (\<exists>t. find_next soup = Some t \<and> \<not> has_attr t ''href'')"
    and "k < n"
    and "0 \<le> interval c"
    and "interval c < 2 ^ 31"
  shows "parse w u ck = Returned (c2\<lparr>url := None\<rparr>)
     \<and> iterations w (Suc k) c = Some (c2\<lparr>url := None\<rparr>)
     \<and> crawl_loop w n c = Some (Returned (c2\<lparr>url := None\<rparr>))
     \<and> crawl w n c = Some (Returned (c2\<lparr>url := None, storage := close (storage c2)\<rparr>))
     \<and> closed (close (storage c2))
     \<and> transitions_to_none (cursor_trace w n c) = 1"
proof -
  let ?c0 = "ck\<lparr>requested := requested ck @ [u]\<rparr>"
  let ?c3 = "c2\<lparr>url := None\<rparr>"
  from assms(6) obtain m where n: "n = k + Suc m" by (auto simp: less_iff_Suc_add)
  have nt: "(case find_next soup of None \<Rightarrow> None | Some t \<Rightarrow> get_attr t ''href'') = None"
    using assms(5) by (auto simp: has_attr_def)
  have p: "parse w u ck = Returned ?c3"
    using assms(3,4) nt by (simp add: parse_Response after_crawl_eq)
  have "interval c2 = interval ?c0"
    using parse_rows_frame [of w "find_all_class ''Box-row'' soup" ?c0] assms(4) by simp
  with iterations_frame [OF assms(1)] have "interval ?c3 = interval c" by simp
  moreover from assms(8) have "interval c * 10 ^ 9 < 2 ^ 63" by simp
  ultimately have sleep: "wait w ?c3 = Returned ?c3"
    using assms(7) by (intro wait_returns) simp_all
  have cr: "crawlable ck" using assms(2) by (simp add: crawlable_def)
  have fin: "\<not> crawlable ?c3" by (simp add: crawlable_def)
  have body: "iteration w ck = Returned ?c3"
    using assms(2) p sleep by (simp add: iteration_def)
  have one_more: "iterations w (Suc 0) ck = Some ?c3"
    using cr body by simp
  have "iterations w (k + Suc 0) c = iterations w (Suc 0) ck"
    unfolding iterations_add [of w k "Suc 0" c] using assms(1) by simp
  with one_more have it: "iterations w (Suc k) c = Some ?c3" by simp
  have "crawl_loop w (Suc m) ck = Some (Returned ?c3)"
    using cr body crawl_loop_done [OF fin, where w = w and n = m] by simp
  with iterations_crawl_loop [OF assms(1), of "Suc m"] n
  have loop: "crawl_loop w n c = Some (Returned ?c3)" by simp
  then have whole: "crawl w n c = Some (Returned (c2\<lparr>url := None, storage := close (storage c2)\<rparr>))"
    by (simp add: crawl_def)
  have cl: "closed (close (storage c2))" by (simp add: close_def)
  from iterations_trace [OF assms(1), where n = "Suc m"] obtain us where
    tr: "cursor_trace w (k + Suc m) c = map Some us @ cursor_trace w (Suc m) ck" by blast
  have "cursor_trace w (Suc m) ck = [Some u, None]"
    using cr body assms(2) cursor_trace_done [OF fin, where w = w and n = m] by simp
  with tr n have "cursor_trace w n c = map Some us @ Some u # [None]" by simp
  then have one: "transitions_to_none (cursor_trace w n c) = 1"
    by (simp add: transitions_to_none_Some)
  from p it loop whole cl one show ?thesis by blast
qed

theorem last_page_ends_crawl_witness:
  "iterations sample_site (Suc 0) (crawler_init ''p1'' 5 sample_storage)
     = Some \<lparr>url = Some ''p2'', interval = 5,
         storage = \<lparr>path = '':memory:'',
           db = Some [(''octocat'', ''hello'', 1234, 0), (''acme'', ''anvil'', 12, 3)],
           closed = False\<rparr>,
         requested = [''p1'']\<rparr>
   \<and> net sample_site (length [''p1'']) ''p2'' = Response 200 (sample_page [sample_user_row])
   \<and> find_next (sample_page [sample_user_row]) = None
   \<and> Suc 0 < Suc (Suc 0)
   \<and> 0 \<le> interval (crawler_init ''p1'' 5 sample_storage)
   \<and> interval (crawler_init ''p1'' 5 sample_storage) < 2 ^ 31
   \<and> crawl sample_site (Suc (Suc 0)) (crawler_init ''p1'' 5 sample_storage)
       = Some (Returned \<lparr>url = None, interval = 5,
           storage = \<lparr>path = '':memory:'',
             db = Some [(''octocat'', ''hello'', 1234, 0), (''acme'', ''anvil'', 12, 3),
                        (''octocat'', ''hello'', 1234, 0)],
             closed = True\<rparr>,
           requested = [''p1'', ''p2'']\<rparr>)
   \<and> cursor_trace sample_site (Suc (Suc 0)) (crawler_init ''p1'' 5 sample_storage)
       = [Some ''p1'', Some ''p2'', None]
   \<and> transitions_to_none (cursor_trace sample_site (Suc (Suc 0)) (crawler_init ''p1'' 5 sample_storage)) = 1"
  using last_page_ends_crawl
    [of sample_site "Suc 0" "crawler_init ''p1'' 5 sample_storage"
        "\<lparr>url = Some ''p2'', interval = 5,
         storage = \<lparr>path = '':memory:'',
           db = Some [(''octocat'', ''hello'', 1234, 0), (''acme'', ''anvil'', 12, 3)],
           closed = False\<rparr>,
         requested = [''p1'']\<rparr>"
        "''p2''" 200 "sample_page [sample_user_row]"
        "\<lparr>url = Some ''p2'', interval = 5,
         storage = \<lparr>path = '':memory:'',
           db = Some [(''octocat'', ''hello'', 1234, 0), (''acme'', ''anvil'', 12, 3),
                      (''octocat'', ''hello'', 1234, 0)],
           closed = False\<rparr>,
         requested = [''p1'', ''p2'']\<rparr>"
        "Suc (Suc 0)"]
  by (simp add: eval_defs)

text \<open>
  C4. On a page with a row that has neither an organization link nor a user link,
  the extraction of that row raises an extraction error (\<^verbatim>\<open>AssertionError\<close> from
  \<^verbatim>\<open>_authority\<close> when the row has a metadata block); the processing of the page
  raises and never reaches the pagination; what is stored are the records of rows
  before that row only, and exactly those of all rows before it when they are
  processed without error, in which case the exception is the one of that row.
\<close>

theorem malformed_row_halts_page:
  assumes "net w (length (requested c)) u = Response status soup"
    and "find_all_class ''Box-row'' soup = pre @ row # post"
    and "find_hovercard ''organization'' row = None"
    and "find_hovercard ''user'' row = None"
  shows "(\<exists>e. parse_row row = Inl e \<and> fault_class e = ExtractionError
            \<and> (find_class ''f5 color-fg-muted'' row \<noteq> None \<longrightarrow> e = AssertionError))
     \<and> (\<exists>e c'. parse w u c = Raised e c' \<and> url c' = url c
          \<and> (\<exists>k recs. k \<le> length pre \<and> map parse_row (take k pre) = map Inr recs
                \<and> db (storage c') = map_option (\<lambda>old. old @ map to_tuple recs) (db (storage c))))
     \<and> (\<forall>c1. parse_rows w pre (c\<lparr>requested := requested c @ [u]\<rparr>) = Returned c1 \<longrightarrow>
          (\<exists>e. parse_row row = Inl e \<and> parse w u c = Raised e c1)
          \<and> (\<exists>recs. map parse_row pre = map Inr recs
                \<and> db (storage c1) = map_option (\<lambda>old. old @ map to_tuple recs) (db (storage c))))"
proof -
  let ?c0 = "c\<lparr>requested := requested c @ [u]\<rparr>"
  from parse_row_no_owner [OF assms(3,4)] obtain e where row: "parse_row row = Inl e"
    and cls: "fault_class e = ExtractionError"
    and asrt: "find_class ''f5 color-fg-muted'' row \<noteq> None \<longrightarrow> e = AssertionError"
    by (cases "find_class ''f5 color-fg-muted'' row") auto
  have whole: "parse w u c =
      (case parse_rows w pre ?c0 of Raised e' c' \<Rightarrow> Raised e' c' | Returned c' \<Rightarrow> Raised e c')"
    by (cases "parse_rows w pre ?c0")
      (simp_all add: parse_Response [OF assms(1)] assms(2) parse_rows_append row)
  from parse_rows_stored [of pre w ?c0] obtain k recs where k: "k \<le> length pre"
    and recs: "map parse_row (take k pre) = map Inr recs"
    and dbf: "db (storage (final (parse_rows w pre ?c0)))
                = map_option (\<lambda>old. old @ map to_tuple recs) (db (storage c))"
    and ret: "\<forall>c'. parse_rows w pre ?c0 = Returned c' \<longrightarrow> k = length pre" by auto
  have fr: "url (final (parse_rows w pre ?c0)) = url c"
    using parse_rows_frame [of w pre ?c0] by simp
  have raised: "\<exists>e c'. parse w u c = Raised e c' \<and> url c' = url c
          \<and> (\<exists>k recs. k \<le> length pre \<and> map parse_row (take k pre) = map Inr recs
                \<and> db (storage c') = map_option (\<lambda>old. old @ map to_tuple recs) (db (storage c)))"
  proof (cases "parse_rows w pre ?c0")
    case (Returned c1)
    with whole fr dbf k recs show ?thesis by auto
  next
    case (Raised e1 c1)
    with whole fr dbf k recs show ?thesis by auto
  qed
  have exact: "(\<exists>e. parse_row row = Inl e \<and> parse w u c = Raised e c1)
          \<and> (\<exists>recs. map parse_row pre = map Inr recs
                \<and> db (storage c1) = map_option (\<lambda>old. old @ map to_tuple recs) (db (storage c)))"
    if "parse_rows w pre ?c0 = Returned c1" for c1
    using that whole dbf recs ret row by auto
  from row cls asrt raised exact show ?thesis by blast
qed

theorem malformed_row_halts_page_witness:
  "net (sample_world [(''p1'', sample_page [sample_user_row, sample_orphan_row, sample_org_row])])
       (length (requested (crawler_init ''p1'' 5 sample_storage))) ''p1''
     = Response 200 (sample_page [sample_user_row, sample_orphan_row, sample_org_row])
   \<and> find_all_class ''Box-row'' (sample_page [sample_user_row, sample_orphan_row, sample_org_row])
       = [sample_user_row] @ sample_orphan_row # [sample_org_row]
   \<and> find_hovercard ''organization'' sample_orphan_row = None
   \<and> find_hovercard ''user'' sample_orphan_row = None
   \<and> parse_row sample_orphan_row = Inl AssertionError
   \<and> fault_class AssertionError = ExtractionError
   \<and> parse_rows (sample_world [(''p1'', sample_page [sample_user_row, sample_orphan_row, sample_org_row])])
        [sample_user_row] ((crawler_init ''p1'' 5 sample_storage)\<lparr>requested := [''p1'']\<rparr>)
       = Returned \<lparr>url = Some ''p1'', interval = 5,
           storage = \<lparr>path = '':memory:'', db = Some [(''octocat'', ''hello'', 1234, 0)], closed = False\<rparr>,
           requested = [''p1'']\<rparr>
   \<and> parse (sample_world [(''p1'', sample_page [sample_user_row, sample_orphan_row, sample_org_row])])
        ''p1'' (crawler_init ''p1'' 5 sample_storage)
       = Raised AssertionError \<lparr>url = Some ''p1'', interval = 5,
           storage = \<lparr>path = '':memory:'', db = Some [(''octocat'', ''hello'', 1234, 0)], closed = False\<rparr>,
           requested = [''p1'']\<rparr>"
  using malformed_row_halts_page
    [of "sample_world [(''p1'', sample_page [sample_user_row, sample_orphan_row, sample_org_row])]"
        "crawler_init ''p1'' 5 sample_storage" "''p1''" 200
        "sample_page [sample_user_row, sample_orphan_row, sample_org_row]"
        "[sample_user_row]" sample_orphan_row "[sample_org_row]"]
  by (simp add: eval_defs)

text \<open>
  C5. For a row whose metadata block has both an organization link and a user
  link, the authority is the text of the organization link: \<^verbatim>\<open>_authority\<close> returns
  it, the row does not fail on the authority, and every record extracted from the
  row carries it.
\<close>

theorem authority_prefers_organization:
  assumes "find_class ''f5 color-fg-muted'' row = Some meta"
    and "find_hovercard ''organization'' meta = Some org_tag"
    and "find_hovercard ''user'' meta = Some user_tag"
  shows "crawler_authority (Some org_tag) (Some user_tag) = Inr (get_text org_tag)
     \<and> parse_row row \<noteq> Inl AssertionError
     \<and> (\<forall>r. parse_row row = Inr r \<longrightarrow> authority r = get_text org_tag)"
  using assms
  by (auto simp: parse_row_def crawler_authority_def
      split: option.splits list.splits sum.splits dest: atoi_raises_ValueError)

theorem authority_prefers_organization_witness:
  "find_class ''f5 color-fg-muted''
     (sample_row [sample_link ''user'' ''octocat'', sample_link ''organization'' ''acme'',
                  sample_link ''repository'' ''anvil''] ''12'' ''3'')
     = Some (Tag ''span'' [''f5'', ''color-fg-muted''] []
         [sample_link ''user'' ''octocat'', sample_link ''organization'' ''acme'',
          sample_link ''repository'' ''anvil''])
   \<and> find_hovercard ''organization'' (Tag ''span'' [''f5'', ''color-fg-muted''] []
         [sample_link ''user'' ''octocat'', sample_link ''organization'' ''acme'',
          sample_link ''repository'' ''anvil'']) = Some (sample_link ''organization'' ''acme'')
   \<and> find_hovercard ''user'' (Tag ''span'' [''f5'', ''color-fg-muted''] []
         [sample_link ''user'' ''octocat'', sample_link ''organization'' ''acme'',
          sample_link ''repository'' ''anvil'']) = Some (sample_link ''user'' ''octocat'')
   \<and> parse_row (sample_row [sample_link ''user'' ''octocat'', sample_link ''organization'' ''acme'',
                  sample_link ''repository'' ''anvil''] ''12'' ''3'')
       = Inr \<lparr>authority = ''acme'', name = ''anvil'', num_stars = 12, num_forks = 3\<rparr>
   \<and> authority \<lparr>authority = ''acme'', name = ''anvil'', num_stars = 12, num_forks = 3\<rparr>
       = get_text (sample_link ''organization'' ''acme'')"
  using authority_prefers_organization
    [of "sample_row [sample_link ''user'' ''octocat'', sample_link ''organization'' ''acme'',
                  sample_link ''repository'' ''anvil''] ''12'' ''3''"
        "Tag ''span'' [''f5'', ''color-fg-muted''] []
         [sample_link ''user'' ''octocat'', sample_link ''organization'' ''acme'',
          sample_link ''repository'' ''anvil'']"
        "sample_link ''organization'' ''acme''" "sample_link ''user'' ''octocat''"]
  by (simp add: eval_defs)




text \<open>
  C7. The badge parsing of lines 89 and 90, \<^verbatim>\<open>locale.atoi(tag.text.strip())\<close>, maps
  the string "1,234" to 1234 and the string "0" to 0: the thousands separators are
  removed before the conversion.
\<close>

theorem atoi_examples:
  "atoi (strip ''1,234'') = Inr 1234 \<and> atoi (strip ''0'') = Inr 0
   \<and> delocalize ''1,234'' = ''1234''"
  by (simp add: number_defs digit_value_def)

text \<open>
  C8, as stated, fails on the code: a row whose star badge reads "-5" is extracted
  and stored with \<open>num_stars = -5\<close>.
\<close>

theorem negative_count_counterexample:
  "parse \<lparr>net = (\<lambda>k u. Response 200 (Tag ''[document]'' [] []
       [Tag ''div'' [''Box-row''] []
          [Tag ''span'' [''f5'', ''color-fg-muted''] []
             [Tag ''a'' [] [(''data-hovercard-type'', ''user'')] [NavigableString ''octocat''],
              Tag ''a'' [] [(''data-hovercard-type'', ''repository'')] [NavigableString ''hello'']],
           Tag ''span'' [''color-fg-muted'', ''text-bold'', ''pl-3''] [] [NavigableString ''-5''],
           Tag ''span'' [''color-fg-muted'', ''text-bold'', ''pl-3''] [] [NavigableString ''0'']]])),
          write_fault = (\<lambda>k. False), random = (\<lambda>k. 0)\<rparr>
     ''https://github.com/x''
     \<lparr>url = Some ''https://github.com/x'', interval = 5,
      storage = \<lparr>path = '':memory:'', db = Some [], closed = False\<rparr>, requested = []\<rparr>
   = Returned \<lparr>url = None, interval = 5,
      storage = \<lparr>path = '':memory:'', db = Some [(''octocat'', ''hello'', - 5, 0)], closed = False\<rparr>,
      requested = [''https://github.com/x'']\<rparr>"
  by (simp add: eval_defs)

text \<open>
  C8, amended. Every record produced by the extraction of a row has as
  \<open>num_stars\<close> the integer that \<^verbatim>\<open>locale.atoi\<close> reads from the stripped text of the
  row's first badge and as \<open>num_forks\<close> the one it reads from the second; each is
  \<open>\<ge> 0\<close> when the text of its badge contains no minus sign. What a page adds to
  the table are the tuples of the records extracted from its first rows, one for
  each row, in order.
\<close>

theorem stored_counts_from_badges:
  assumes "net w (length (requested c)) u = Response status soup"
  shows "(parse_row row = Inr r \<longrightarrow>
           (\<exists>s f. find_all_class ''color-fg-muted text-bold pl-3'' row = [s, f]
              \<and> atoi (strip (get_text s)) = Inr (num_stars r)
              \<and> atoi (strip (get_text f)) = Inr (num_forks r)
              \<and> (CHR ''-'' \<notin> set (get_text s) \<longrightarrow> 0 \<le> num_stars r)
              \<and> (CHR ''-'' \<notin> set (get_text f) \<longrightarrow> 0 \<le> num_forks r)))
     \<and> (\<exists>recs. length recs \<le> length (find_all_class ''Box-row'' soup)
           \<and> db (storage (final (parse w u c)))
               = map_option (\<lambda>old. old @ map to_tuple recs) (db (storage c))
           \<and> (\<forall>i < length recs.
                 parse_row (find_all_class ''Box-row'' soup ! i) = Inr (recs ! i)))"
proof -
  let ?rows = "find_all_class ''Box-row'' soup"
  let ?c0 = "c\<lparr>requested := requested c @ [u]\<rparr>"
  from parse_rows_stored [of ?rows w ?c0] obtain k recs where k: "k \<le> length ?rows"
    and recs: "map parse_row (take k ?rows) = map Inr recs"
    and dbf: "db (storage (final (parse_rows w ?rows ?c0)))
                = map_option (\<lambda>old. old @ map to_tuple recs) (db (storage ?c0))" by blast
  from recs have "length (map parse_row (take k ?rows)) = length (map Inr recs)" by simp
  with k have len: "length recs = k" by simp
  have at: "parse_row (?rows ! i) = Inr (recs ! i)" if "i < length recs" for i
  proof -
    from that len k have "map parse_row (take k ?rows) ! i = parse_row (?rows ! i)" by simp
    moreover from that have "map Inr recs ! i = (Inr (recs ! i) :: py_exception + repository)"
      by simp
    ultimately show ?thesis using recs by simp
  qed
  have stored: "\<exists>recs. length recs \<le> length ?rows
           \<and> db (storage (final (parse w u c)))
               = map_option (\<lambda>old. old @ map to_tuple recs) (db (storage c))
           \<and> (\<forall>i < length recs. parse_row (?rows ! i) = Inr (recs ! i))"
    using len k dbf at parse_db [OF assms] by (intro exI [of _ recs]) simp
  from stored parse_row_badges [of row r] show ?thesis by blast
qed

theorem stored_counts_from_badges_witness:
  "net (sample_world [(''p1'', sample_page [sample_user_row])])
     (length (requested (crawler_init ''p1'' 5 sample_storage))) ''p1''
    = Response 200 (sample_page [sample_user_row])
   \<and> parse_row sample_user_row
       = Inr \<lparr>authority = ''octocat'', name = ''hello'', num_stars = 1234, num_forks = 0\<rparr>
   \<and> find_all_class ''color-fg-muted text-bold pl-3'' sample_user_row
       = [sample_badge ''1,234'', sample_badge ''0'']
   \<and> atoi (strip (get_text (sample_badge ''1,234''))) = Inr 1234
   \<and> atoi (strip (get_text (sample_badge ''0''))) = Inr 0
   \<and> db (storage (final (parse (sample_world [(''p1'', sample_page [sample_user_row])])
         ''p1'' (crawler_init ''p1'' 5 sample_storage))))
       = Some [(''octocat'', ''hello'', 1234, 0)]"
  using stored_counts_from_badges
    [of "sample_world [(''p1'', sample_page [sample_user_row])]"
        "crawler_init ''p1'' 5 sample_storage" "''p1''" 200 "sample_page [sample_user_row]"
        sample_user_row
        "\<lparr>authority = ''octocat'', name = ''hello'', num_stars = 1234, num_forks = 0\<rparr>"]
  by (simp add: eval_defs)

text \<open>
  C9. When the processing of a page raises in an iteration of the loop, whatever
  the exception (network, extraction or persistence), the loop does not catch it: the run ends with that
  exception and the state the iteration left, for any fuel that reaches the
  iteration; \<^verbatim>\<open>close\<close> is not called (the store is as open or closed as it was
  at the start), and no further request is made.
\<close>

theorem error_propagates_unclosed:
  assumes "iterations w k c = Some ck"
    and "crawlable ck"
    and "parse w (the (url ck)) ck = Raised e c'"
    and "k < n"
  shows "crawl_loop w n c = Some (Raised e c')
     \<and> crawl w n c = Some (Raised e c')
     \<and> closed (storage c') = closed (storage c)
     \<and> requested c' = requested ck @ [the (url ck)]"
proof -
  from assms(4) obtain m where n: "n = k + Suc m" by (auto simp: less_iff_Suc_add)
  have "iteration w ck = Raised e c'"
    using assms(3) by (rule iteration_parse_Raised)
  with assms(2) have "crawl_loop w (Suc m) ck = Some (Raised e c')" by simp
  with iterations_crawl_loop [OF assms(1), of "Suc m"] n
  have loop: "crawl_loop w n c = Some (Raised e c')" by simp
  then have whole: "crawl w n c = Some (Raised e c')" by (simp add: crawl_def)
  have "closed (storage c') = closed (storage ck)" "requested c' = requested ck @ [the (url ck)]"
    using parse_frame [of w "the (url ck)" ck] assms(3) by simp_all
  with iterations_frame [OF assms(1)] loop whole show ?thesis by simp
qed

theorem error_propagates_unclosed_witness:
  "iterations (sample_world [(''p1'', sample_page [sample_user_row, sample_next [(''href'', ''p2'')]])])
       (Suc 0) (crawler_init ''p1'' 5 sample_storage)
     = Some \<lparr>url = Some ''p2'', interval = 5,
         storage = \<lparr>path = '':memory:'', db = Some [(''octocat'', ''hello'', 1234, 0)], closed = False\<rparr>,
         requested = [''p1'']\<rparr>
   \<and> Suc 0 < Suc (Suc 0)
   \<and> crawl (sample_world [(''p1'', sample_page [sample_user_row, sample_next [(''href'', ''p2'')]])])
        (Suc (Suc 0)) (crawler_init ''p1'' 5 sample_storage)
       = Some (Raised RequestException \<lparr>url = Some ''p2'', interval = 5,
           storage = \<lparr>path = '':memory:'', db = Some [(''octocat'', ''hello'', 1234, 0)], closed = False\<rparr>,
           requested = [''p1'', ''p2'']\<rparr>)
   \<and> fault_class RequestException = NetworkError
   \<and> crawl (sample_world [(''p1'', sample_page [sample_user_row, sample_orphan_row])])
        (Suc 0) (crawler_init ''p1'' 5 sample_storage)
       = Some (Raised AssertionError \<lparr>url = Some ''p1'', interval = 5,
           storage = \<lparr>path = '':memory:'', db = Some [(''octocat'', ''hello'', 1234, 0)], closed = False\<rparr>,
           requested = [''p1'']\<rparr>)
   \<and> fault_class AssertionError = ExtractionError
   \<and> crawl ((sample_world [(''p1'', sample_page [sample_user_row])])\<lparr>write_fault := (\<lambda>k. True)\<rparr>)
        (Suc 0) (crawler_init ''p1'' 5 sample_storage)
       = Some (Raised OperationalError \<lparr>url = Some ''p1'', interval = 5,
           storage = \<lparr>path = '':memory:'', db = Some [], closed = False\<rparr>,
           requested = [''p1'']\<rparr>)
   \<and> fault_class OperationalError = PersistenceError"
  using error_propagates_unclosed
    [of "sample_world [(''p1'', sample_page [sample_user_row, sample_next [(''href'', ''p2'')]])]"
        "Suc 0" "crawler_init ''p1'' 5 sample_storage"
        "\<lparr>url = Some ''p2'', interval = 5,
         storage = \<lparr>path = '':memory:'', db = Some [(''octocat'', ''hello'', 1234, 0)], closed = False\<rparr>,
         requested = [''p1'']\<rparr>"
        RequestException
        "\<lparr>url = Some ''p2'', interval = 5,
           storage = \<lparr>path = '':memory:'', db = Some [(''octocat'', ''hello'', 1234, 0)], closed = False\<rparr>,
           requested = [''p1'', ''p2'']\<rparr>"
        "Suc (Suc 0)"]
    error_propagates_unclosed
    [of "sample_world [(''p1'', sample_page [sample_user_row, sample_orphan_row])]"
        0 "crawler_init ''p1'' 5 sample_storage" "crawler_init ''p1'' 5 sample_storage"
        AssertionError
        "\<lparr>url = Some ''p1'', interval = 5,
           storage = \<lparr>path = '':memory:'', db = Some [(''octocat'', ''hello'', 1234, 0)], closed = False\<rparr>,
           requested = [''p1'']\<rparr>"
        "Suc 0"]
    error_propagates_unclosed
    [of "(sample_world [(''p1'', sample_page [sample_user_row])])\<lparr>write_fault := (\<lambda>k. True)\<rparr>"
        0 "crawler_init ''p1'' 5 sample_storage" "crawler_init ''p1'' 5 sample_storage"
        OperationalError
        "\<lparr>url = Some ''p1'', interval = 5,
           storage = \<lparr>path = '':memory:'', db = Some [], closed = False\<rparr>,
           requested = [''p1'']\<rparr>"
        "Suc 0"]
  by (simp add: eval_defs)



end
